theory Spec2Isabelle
  imports Complex_Main "HOL-Library.Word"
begin

section \<open>JavaScript values\<close>

text \<open>
  A JavaScript string is a sequence of UTF-16 code units. The regular expressions of
  \<^verbatim>\<open>src/utils/validation.ts\<close> carry no \<^verbatim>\<open>u\<close> flag, so they too work on code units.
  \<open>js\<close> writes an ASCII literal.
\<close>

type_synonym jsstring = "16 word list"

definition js :: "string \<Rightarrow> jsstring" where
  "js s = map (\<lambda>c. of_nat (of_char c)) s"

text \<open>
  A number is an IEEE double: \<open>NaN\<close>, the two infinities, or a finite value, kept here as
  the rational it denotes. Only the test \<^verbatim>\<open>isNaN\<close> and the literal \<^verbatim>\<open>0\<close> are used by the code.
\<close>

datatype jsnum = NaN | PosInfinity | NegInfinity | Finite rat

definition isNaN :: "jsnum \<Rightarrow> bool" where
  "isNaN n = (n = NaN)"

text \<open>
  The values a field stores and the values synthesis emits. An object
  (\<^verbatim>\<open>Record<string, unknown>\<close>) is the list of its own properties, in insertion order,
  with its prototype. The prototype of an object literal and of an object that
  \<^verbatim>\<open>JSON.parse\<close> returns is \<^verbatim>\<open>Object.prototype\<close>; an assignment to \<^verbatim>\<open>__proto__\<close> can replace
  it with \<^verbatim>\<open>null\<close>, an array or another object.
\<close>

datatype jsvalue =
    JString jsstring
  | JNumber jsnum
  | JBoolean bool
  | JNull
  | JArray "jsvalue list"
  | JObject jsobject
and jsobject = Obj (props: "(jsstring \<times> jsvalue) list") (proto: prototype)
and prototype = ObjectPrototype | NullPrototype | ProtoArray "jsvalue list" | ProtoObject jsobject

text \<open>\<^verbatim>\<open>{}\<close>\<close>

definition emptyObject :: jsobject where
  "emptyObject = Obj [] ObjectPrototype"

text \<open>An own data property is written in place, or added after the others.\<close>

fun propSet :: "(jsstring \<times> jsvalue) list \<Rightarrow> jsstring \<Rightarrow> jsvalue \<Rightarrow> (jsstring \<times> jsvalue) list" where
  "propSet [] k v = [(k, v)]"
| "propSet ((k', v') # ps) k v = (if k' = k then (k, v) # ps else (k', v') # propSet ps k v)"

text \<open>
  Whether an assignment to \<^verbatim>\<open>__proto__\<close> on the object reaches the accessor of
  \<^verbatim>\<open>Object.prototype\<close>: the lookup walks the prototype chain and stops at the first
  object that has \<^verbatim>\<open>__proto__\<close> as an own (data) property. An array has no such own
  property and inherits from \<^verbatim>\<open>Array.prototype\<close> and \<^verbatim>\<open>Object.prototype\<close>.
\<close>

fun seesProtoSetter :: "jsobject \<Rightarrow> bool"
  and throughPrototype :: "prototype \<Rightarrow> bool" where
  "seesProtoSetter (Obj ps pr) =
     (if js ''__proto__'' \<in> set (map fst ps) then False else throughPrototype pr)"
| "throughPrototype ObjectPrototype = True"
| "throughPrototype NullPrototype = False"
| "throughPrototype (ProtoArray xs) = True"
| "throughPrototype (ProtoObject ob) = seesProtoSetter ob"

text \<open>
  \<^verbatim>\<open>obj[k] = v\<close>. Every property that \<^verbatim>\<open>Object.prototype\<close> and \<^verbatim>\<open>Array.prototype\<close> hold
  under a string key is a writable data property, except the accessor \<^verbatim>\<open>__proto__\<close>, and
  so is every own property of the objects built here; hence the assignment writes an
  own property of \<open>obj\<close>, unless \<open>k\<close> is \<^verbatim>\<open>__proto__\<close> and the accessor is reached. The
  accessor replaces the prototype when \<open>v\<close> is an object, an array or \<^verbatim>\<open>null\<close> and does
  nothing otherwise; in no case does it create a property. (It refuses a cyclic
  prototype chain, which cannot arise: \<open>v\<close> is built before \<open>obj\<close> receives it.) The keys
  that synthesis assigns have passed \<open>validateKeyValue\<close>, so none is an array index,
  which JavaScript would move to the front.
\<close>

fun objSet :: "jsobject \<Rightarrow> jsstring \<Rightarrow> jsvalue \<Rightarrow> jsobject" where
  "objSet (Obj ps pr) k v =
     (if k = js ''__proto__'' \<and> seesProtoSetter (Obj ps pr) then
        (case v of
           JObject ob \<Rightarrow> Obj ps (ProtoObject ob)
         | JArray xs \<Rightarrow> Obj ps (ProtoArray xs)
         | JNull \<Rightarrow> Obj ps NullPrototype
         | _ \<Rightarrow> Obj ps pr)
      else Obj (propSet ps k v) pr)"

text \<open>
  The built-ins of the platform that the code calls and the repository does not define:
  \<^verbatim>\<open>Number(x)\<close>, \<^verbatim>\<open>String(x)\<close> and \<^verbatim>\<open>JSON.parse(s)\<close> (\<open>None\<close> when it throws).
\<close>

record platform =
  Number :: "jsvalue \<Rightarrow> jsnum"
  String :: "jsvalue \<Rightarrow> jsstring"
  JSON_parse :: "jsstring \<Rightarrow> jsvalue option"

text \<open>\<^verbatim>\<open>String.prototype.trim\<close>: strips WhiteSpace and LineTerminator code units at both ends.\<close>

definition isWhiteSpace :: "16 word \<Rightarrow> bool" where
  "isWhiteSpace c =
     (c \<in> {0x09, 0x0A, 0x0B, 0x0C, 0x0D, 0x20, 0xA0, 0x1680, 0x2028, 0x2029, 0x202F,
            0x205F, 0x3000, 0xFEFF} \<or> (0x2000 \<le> c \<and> c \<le> 0x200A))"

definition trim :: "jsstring \<Rightarrow> jsstring" where
  "trim s = rev (dropWhile isWhiteSpace (rev (dropWhile isWhiteSpace s)))"

text \<open>\<^verbatim>\<open>n.toString()\<close> for an array index: decimal digits, most significant first.\<close>

fun toString :: "nat \<Rightarrow> jsstring" where
  "toString n = (if n < 10 then [of_nat (48 + n)] else toString (n div 10) @ [of_nat (48 + n mod 10)])"

declare toString.simps [simp del]

section \<open>The field tree (src/types/index.ts)\<close>

datatype ftype = T_string | T_number | T_boolean | T_null | T_object | T_array

text \<open>
  \<^verbatim>\<open>interface JSONField\<close>. The properties marked \<^verbatim>\<open>?\<close> in the source are options:
  \<open>None\<close> is \<^verbatim>\<open>undefined\<close>. The selectors \<open>fid\<close>, \<open>fvalue\<close> and \<open>ftype\<close> are the
  properties \<^verbatim>\<open>id\<close>, \<^verbatim>\<open>value\<close> and \<^verbatim>\<open>type\<close>.
\<close>

datatype field = Field
  (fid: jsstring)
  (key: jsstring)
  (fvalue: jsvalue)
  (ftype: ftype)
  (isEditing: "bool option")
  (children: "field list option")
  (isCollapsed: "bool option")
  (depth: "nat option")
  (parentId: "jsstring option")

text \<open>\<^verbatim>\<open>{ ...field, children: cs }\<close> and \<^verbatim>\<open>{ ...child, key: k }\<close>.\<close>

fun withChildren :: "field \<Rightarrow> field list option \<Rightarrow> field" where
  "withChildren (Field i k v t e c col d p) cs = Field i k v t e cs col d p"

fun withKey :: "field \<Rightarrow> jsstring \<Rightarrow> field" where
  "withKey (Field i k v t e c col d p) k' = Field i k' v t e c col d p"

text \<open>Truthiness of an optional string: \<^verbatim>\<open>undefined\<close> and \<^verbatim>\<open>''\<close> are falsy.\<close>

fun truthy :: "jsstring option \<Rightarrow> bool" where
  "truthy None = False"
| "truthy (Some s) = (s \<noteq> [])"

section \<open>Identifier validator (src/utils/validation.ts)\<close>

definition isDigit :: "16 word \<Rightarrow> bool" where
  "isDigit c = (0x30 \<le> c \<and> c \<le> 0x39)"

definition isIdStart :: "16 word \<Rightarrow> bool" where
  "isIdStart c = ((0x61 \<le> c \<and> c \<le> 0x7A) \<or> (0x41 \<le> c \<and> c \<le> 0x5A) \<or> c = 0x5F \<or> c = 0x24)"

definition isIdPart :: "16 word \<Rightarrow> bool" where
  "isIdPart c = ((0x61 \<le> c \<and> c \<le> 0x7A) \<or> (0x41 \<le> c \<and> c \<le> 0x5A) \<or> isDigit c
     \<or> c = 0x5F \<or> c = 0x24)"

text \<open>\<^verbatim>\<open>/^[a-zA-Z_$][a-zA-Z0-9_$]*$/.test(key)\<close>\<close>

fun matchesIdentifier :: "jsstring \<Rightarrow> bool" where
  "matchesIdentifier [] = False"
| "matchesIdentifier (c # cs) = (isIdStart c \<and> list_all isIdPart cs)"

text \<open>The messages stored in the error map, one constructor per literal of the source.\<close>

datatype error =
    KeyCannotBeEmpty
  | KeyCannotContainSpaces
  | KeyMustBeValidIdentifier
  | InvalidNumber
  | InvalidJSONObject
  | InvalidJSONArray
  | InvalidValueForType
  | DuplicateKey

text \<open>\<open>validateKeyValue\<close>: \<open>None\<close> is \<^verbatim>\<open>{ isValid: true }\<close>, \<open>Some e\<close> carries the error.\<close>

definition validateKeyValue :: "jsstring \<Rightarrow> error option" where
  "validateKeyValue k =
     (if trim k = [] then Some KeyCannotBeEmpty
      else if 0x20 \<in> set k then Some KeyCannotContainSpaces
      else if \<not> matchesIdentifier k then Some KeyMustBeValidIdentifier
      else None)"

definition hasDuplicateKeys :: "field list \<Rightarrow> bool" where
  "hasDuplicateKeys fieldList = (length (map key fieldList) \<noteq> card (set (map key fieldList)))"

text \<open>\<^verbatim>\<open>key.replace(/[^a-zA-Z0-9_$]/g, '_').replace(/^[0-9]/, '_$&')\<close>\<close>

fun prefixDigit :: "jsstring \<Rightarrow> jsstring" where
  "prefixDigit [] = []"
| "prefixDigit (c # cs) = (if isDigit c then 0x5F # c # cs else c # cs)"

definition sanitizeKey :: "jsstring \<Rightarrow> jsstring" where
  "sanitizeKey k = prefixDigit (map (\<lambda>c. if isIdPart c then c else 0x5F) k)"

section \<open>Array helpers of the platform\<close>

text \<open>\<^verbatim>\<open>xs.findIndex(p)\<close>: the first position whose element satisfies \<open>p\<close>, or \<open>-1\<close>.\<close>

fun findIndex :: "('a \<Rightarrow> bool) \<Rightarrow> 'a list \<Rightarrow> int" where
  "findIndex p [] = -1"
| "findIndex p (x # xs) =
     (if p x then 0 else (let r = findIndex p xs in if r < 0 then -1 else r + 1))"

text \<open>
  \<^verbatim>\<open>xs.splice(start, 0, x)\<close> on a copy of \<open>xs\<close>: a negative start counts from the end, and
  the start is clamped to the bounds of the list.
\<close>

definition splice :: "'a list \<Rightarrow> int \<Rightarrow> 'a \<Rightarrow> 'a list" where
  "splice xs start x =
     (let len = int (length xs);
          s = (if start < 0 then max (len + start) 0 else min start len)
      in take (nat s) xs @ x # drop (nat s) xs)"

section \<open>Drag-reorder engine (src/utils/dragDrop.ts)\<close>

fun findField :: "field list \<Rightarrow> jsstring \<Rightarrow> field option" where
  "findField [] i = None"
| "findField (Field i' k v t e c col d p # fs) i =
     (if i' = i then Some (Field i' k v t e c col d p)
      else (case c of
              Some cs \<Rightarrow> (case findField cs i of
                            Some found \<Rightarrow> Some found
                          | None \<Rightarrow> findField fs i)
            | None \<Rightarrow> findField fs i))"

fun findFieldWithPath ::
  "field list \<Rightarrow> jsstring \<Rightarrow> jsstring list \<Rightarrow> field option \<times> jsstring list" where
  "findFieldWithPath [] i path = (None, [])"
| "findFieldWithPath (Field i' k v t e c col d p # fs) i path =
     (if i' = i then (Some (Field i' k v t e c col d p), path)
      else (case c of
              Some cs \<Rightarrow> (case findFieldWithPath cs i (path @ [i']) of
                            (Some found, parentPath) \<Rightarrow> (Some found, parentPath)
                          | (None, _) \<Rightarrow> findFieldWithPath fs i path)
            | None \<Rightarrow> findFieldWithPath fs i path))"

text \<open>
  The \<open>removeField\<close> of dragDrop.ts (the component has one of its own, below):
  \<^verbatim>\<open>fields.filter(f => f.id !== id).map(f => ({...f, children: f.children ? removeField(f.children, id) : []}))\<close>
\<close>

fun dragDrop_removeField :: "field list \<Rightarrow> jsstring \<Rightarrow> field list" where
  "dragDrop_removeField [] i = []"
| "dragDrop_removeField (Field i' k v t e c col d p # fs) i =
     (if i' \<noteq> i
      then Field i' k v t e
             (Some (case c of Some cs \<Rightarrow> dragDrop_removeField cs i | None \<Rightarrow> [])) col d p
           # dragDrop_removeField fs i
      else dragDrop_removeField fs i)"

definition findInsertIndex :: "field list \<Rightarrow> jsstring \<Rightarrow> jsstring option \<Rightarrow> int" where
  "findInsertIndex fs referenceId pId =
     (if truthy pId then
        (case findField fs (the pId) of
           Some parent \<Rightarrow>
             (case children parent of
                Some cs \<Rightarrow>
                  (let refIndex = findIndex (\<lambda>f. fid f = referenceId) cs
                   in if refIndex \<ge> 0 then refIndex else int (length cs))
              | None \<Rightarrow> 0)
         | None \<Rightarrow> 0)
      else
        (let refIndex = findIndex (\<lambda>f. fid f = referenceId) fs
         in if refIndex \<ge> 0 then refIndex else int (length fs)))"

text \<open>
  \<open>insertField\<close> with a truthy \<^verbatim>\<open>parentId\<close> (here \<open>pId\<close>) maps over the list and calls
  itself on the children with the same \<^verbatim>\<open>parentId\<close>: that map is \<open>insertAsChild\<close>.
\<close>

fun insertAsChild :: "field list \<Rightarrow> field \<Rightarrow> int \<Rightarrow> jsstring \<Rightarrow> field list" where
  "insertAsChild [] fieldToInsert index pId = []"
| "insertAsChild (Field i k v t e c col d p # fs) fieldToInsert index pId =
     (if i = pId
      then Field i k v t e
             (Some (splice (case c of Some cs \<Rightarrow> cs | None \<Rightarrow> []) index fieldToInsert)) col d p
      else (case c of
              Some cs \<Rightarrow> Field i k v t e (Some (insertAsChild cs fieldToInsert index pId)) col d p
            | None \<Rightarrow> Field i k v t e c col d p))
     # insertAsChild fs fieldToInsert index pId"

definition insertField :: "field list \<Rightarrow> field \<Rightarrow> int \<Rightarrow> jsstring option \<Rightarrow> field list" where
  "insertField fs fieldToInsert index pId =
     (if truthy pId then insertAsChild fs fieldToInsert index (the pId)
      else splice fs index fieldToInsert)"

fun isDescendant :: "field \<Rightarrow> jsstring \<Rightarrow> bool"
  and isDescendantLoop :: "field list \<Rightarrow> jsstring \<Rightarrow> bool" where
  "isDescendant (Field i k v t e c col d p) childId =
     (case c of None \<Rightarrow> False | Some cs \<Rightarrow> isDescendantLoop cs childId)"
| "isDescendantLoop [] childId = False"
| "isDescendantLoop (child # cs) childId =
     (if fid child = childId then True
      else if isDescendant child childId then True
      else isDescendantLoop cs childId)"

definition moveField ::
  "field list \<Rightarrow> jsstring \<Rightarrow> jsstring \<Rightarrow> jsstring option \<Rightarrow> field list" where
  "moveField fs dragId hoverId hoverParentId =
     (case fst (findFieldWithPath fs dragId []) of
        None \<Rightarrow> fs
      | Some dragField \<Rightarrow>
          (case fst (findFieldWithPath fs hoverId []) of
             None \<Rightarrow> fs
           | Some hoverField \<Rightarrow>
               (let fieldsWithoutDrag = dragDrop_removeField fs dragId;
                    insertIndex = findInsertIndex fieldsWithoutDrag hoverId hoverParentId
                in insertField fieldsWithoutDrag dragField insertIndex hoverParentId)))"

definition canDrop :: "jsstring \<Rightarrow> jsstring \<Rightarrow> field list \<Rightarrow> bool" where
  "canDrop dragId hoverId fs =
     (if dragId = hoverId then False
      else (case findField fs dragId of
              Some dragField \<Rightarrow> (if isDescendant dragField hoverId then False else True)
            | None \<Rightarrow> True))"

section \<open>Tree mutator (src/components/json-generator/JSONGenerator.tsx)\<close>

text \<open>
  The blank field that the component creates at start, in \<open>addField\<close>, in \<open>removeField\<close>
  and in \<open>clearAll\<close>. Its id comes from \<^verbatim>\<open>jsonUtils.generateId()\<close>, a random string: a
  parameter here.
\<close>

definition blankField :: "jsstring \<Rightarrow> jsstring option \<Rightarrow> field" where
  "blankField newId pId =
     Field newId [] (JString []) T_string None (Some []) (Some False) (Some 0) pId"

text \<open>\<open>getFieldById\<close>, whose inner loop is \<open>findInFields\<close>.\<close>

fun findInFields :: "jsstring \<Rightarrow> field list \<Rightarrow> field option" where
  "findInFields i [] = None"
| "findInFields i (Field i' k v t e c col d p # fs) =
     (if i' = i then Some (Field i' k v t e c col d p)
      else (case c of
              Some (ch # cs) \<Rightarrow> (case findInFields i (ch # cs) of
                                   Some found \<Rightarrow> Some found
                                 | None \<Rightarrow> findInFields i fs)
            | _ \<Rightarrow> findInFields i fs))"

definition getFieldById :: "field list \<Rightarrow> jsstring \<Rightarrow> field option" where
  "getFieldById fs i = findInFields i fs"

text \<open>\<open>addField\<close>: \<open>updateChildren\<close> is its inner map, \<open>index\<close> is optional.\<close>

fun updateChildren :: "jsstring \<Rightarrow> int option \<Rightarrow> field \<Rightarrow> field list \<Rightarrow> field list" where
  "updateChildren pId index newField [] = []"
| "updateChildren pId index newField (Field i k v t e c col d p # fs) =
     (if i = pId
      then (let cs = (case c of Some cs \<Rightarrow> cs | None \<Rightarrow> [])
            in Field i k v t e
                 (Some (case index of Some n \<Rightarrow> splice cs n newField | None \<Rightarrow> cs @ [newField]))
                 col d p)
      else (case c of
              Some cs \<Rightarrow> Field i k v t e (Some (updateChildren pId index newField cs)) col d p
            | None \<Rightarrow> Field i k v t e c col d p))
     # updateChildren pId index newField fs"

definition addField ::
  "field list \<Rightarrow> jsstring \<Rightarrow> jsstring option \<Rightarrow> int option \<Rightarrow> field list" where
  "addField fs newId pId index =
     (let newField = blankField newId pId
      in if truthy pId then updateChildren (the pId) index newField fs
         else (case index of
                 Some n \<Rightarrow> splice fs n newField
               | None \<Rightarrow> fs @ [newField]))"

text \<open>
  \<open>removeField\<close>: \<open>removeFromFields\<close> is its inner function, \<open>reindex\<close> the renumbering
  \<^verbatim>\<open>children.map((child, index) => ({...child, key: index.toString()}))\<close>.
\<close>

definition reindex :: "field list \<Rightarrow> field list" where
  "reindex cs = map (\<lambda>(child, index). withKey child (toString index)) (zip cs [0..<length cs])"

fun removeFromFields :: "jsstring \<Rightarrow> field list \<Rightarrow> field list" where
  "removeFromFields i [] = []"
| "removeFromFields i (Field i' k v t e c col d p # fs) =
     (if i' \<noteq> i
      then (let cs' = (case c of Some cs \<Rightarrow> removeFromFields i cs | None \<Rightarrow> [])
            in Field i' k v t e (Some (if t = T_array then reindex cs' else cs')) col d p)
           # removeFromFields i fs
      else removeFromFields i fs)"

definition removeField :: "field list \<Rightarrow> jsstring \<Rightarrow> jsstring \<Rightarrow> field list" where
  "removeField fs i newId =
     (let newFields = removeFromFields i fs
      in if length newFields = 0 then [blankField newId None] else newFields)"

text \<open>
  \<^verbatim>\<open>Partial<JSONField>\<close>: a property is absent (\<open>None\<close>) or present with a value; an
  optional property can also be present with the value \<^verbatim>\<open>undefined\<close> (\<open>Some None\<close>).
\<close>

record updates =
  u_id :: "jsstring option"
  u_key :: "jsstring option"
  u_value :: "jsvalue option"
  u_type :: "ftype option"
  u_isEditing :: "bool option option"
  u_children :: "field list option option"
  u_isCollapsed :: "bool option option"
  u_depth :: "nat option option"
  u_parentId :: "jsstring option option"

definition noUpdates :: updates where
  "noUpdates = \<lparr>u_id = None, u_key = None, u_value = None, u_type = None, u_isEditing = None,
     u_children = None, u_isCollapsed = None, u_depth = None, u_parentId = None\<rparr>"

text \<open>\<^verbatim>\<open>{ ...field, ...updates }\<close>\<close>

fun mergeUpdates :: "field \<Rightarrow> updates \<Rightarrow> field" where
  "mergeUpdates (Field i k v t e c col d p) u =
     Field (case u_id u of Some x \<Rightarrow> x | None \<Rightarrow> i)
           (case u_key u of Some x \<Rightarrow> x | None \<Rightarrow> k)
           (case u_value u of Some x \<Rightarrow> x | None \<Rightarrow> v)
           (case u_type u of Some x \<Rightarrow> x | None \<Rightarrow> t)
           (case u_isEditing u of Some x \<Rightarrow> x | None \<Rightarrow> e)
           (case u_children u of Some x \<Rightarrow> x | None \<Rightarrow> c)
           (case u_isCollapsed u of Some x \<Rightarrow> x | None \<Rightarrow> col)
           (case u_depth u of Some x \<Rightarrow> x | None \<Rightarrow> d)
           (case u_parentId u of Some x \<Rightarrow> x | None \<Rightarrow> p)"

definition applyUpdates :: "field \<Rightarrow> updates \<Rightarrow> field" where
  "applyUpdates f u =
     (let updatedField = mergeUpdates f u
      in if (u_type u = Some T_object \<or> u_type u = Some T_array) \<and> children updatedField = None
         then withChildren updatedField (Some [])
         else updatedField)"

fun updateInFields :: "jsstring \<Rightarrow> updates \<Rightarrow> field list \<Rightarrow> field list" where
  "updateInFields i u [] = []"
| "updateInFields i u (Field i' k v t e c col d p # fs) =
     (if i' = i then applyUpdates (Field i' k v t e c col d p) u
      else (case c of
              Some cs \<Rightarrow> Field i' k v t e (Some (updateInFields i u cs)) col d p
            | None \<Rightarrow> Field i' k v t e c col d p))
     # updateInFields i u fs"

definition updateField :: "field list \<Rightarrow> jsstring \<Rightarrow> updates \<Rightarrow> field list" where
  "updateField fs i u = updateInFields i u fs"

text \<open>\<^verbatim>\<open>updateField(id, { isCollapsed: !(field?.isCollapsed) })\<close>\<close>

definition toggleCollapse :: "field list \<Rightarrow> jsstring \<Rightarrow> field list" where
  "toggleCollapse fs i =
     (let collapsed = (case getFieldById fs i of
                         Some f \<Rightarrow> (case isCollapsed f of Some b \<Rightarrow> b | None \<Rightarrow> False)
                       | None \<Rightarrow> False)
      in updateField fs i (noUpdates\<lparr>u_isCollapsed := Some (Some (\<not> collapsed))\<rparr>))"

section \<open>Handlers of a field's row (src/components/json-generator/FieldInput.tsx)\<close>

text \<open>\<open>handleTypeChange\<close> builds the update that it hands to \<open>onUpdate\<close>, which is \<open>updateField\<close>.\<close>

definition handleTypeChange :: "ftype \<Rightarrow> updates" where
  "handleTypeChange newType =
     (let newValue = (case newType of
                        T_boolean \<Rightarrow> js ''false''
                      | T_number \<Rightarrow> js ''0''
                      | T_null \<Rightarrow> []
                      | T_object \<Rightarrow> js ''{}''
                      | T_array \<Rightarrow> js ''[]''
                      | T_string \<Rightarrow> [])
      in noUpdates\<lparr>u_type := Some newType, u_value := Some (JString newValue)\<rparr>)"

text \<open>
  \<open>handleDrop\<close> on the row of \<open>field\<close>, for a drag item with id \<open>dragId\<close>; \<open>dragOver\<close> is the
  zone the pointer is in. \<open>onMove\<close> is the component's \<open>moveField\<close>, which stores the result
  of \<open>dragDropUtils.moveField\<close>; the result here is the stored tree.
\<close>

datatype dropZone = Before | After | Inside

definition handleDrop :: "field list \<Rightarrow> field \<Rightarrow> dropZone option \<Rightarrow> jsstring \<Rightarrow> field list" where
  "handleDrop allFields field dragOver dragId =
     (if dragId = fid field then allFields
      else if \<not> canDrop dragId (fid field) allFields then allFields
      else (let isNestableType = (ftype field = T_object \<or> ftype field = T_array);
                targetParentId = (if dragOver = Some Inside \<and> isNestableType
                                  then Some (fid field) else parentId field)
            in moveField allFields dragId (fid field) targetParentId))"

section \<open>JSON synthesizer (generateJSON in JSONGenerator.tsx)\<close>

text \<open>
  The error map \<^verbatim>\<open>newErrors\<close>, keyed by field id, is shared by every call of
  \<open>buildObject\<close> and by \<open>checkDuplicates\<close>: it is passed in and returned. It is an object
  literal whose values are strings, so its prototype stays \<^verbatim>\<open>Object.prototype\<close>, and
  \<^verbatim>\<open>newErrors[id] = message\<close> with the id \<^verbatim>\<open>__proto__\<close> reaches the accessor, which ignores
  a string: \<open>errSet\<close>.
\<close>

type_synonym errors = "jsstring \<rightharpoonup> error"

definition errSet :: "errors \<Rightarrow> jsstring \<Rightarrow> error \<Rightarrow> errors" where
  "errSet errs i e = (if i = js ''__proto__'' then errs else errs(i \<mapsto> e))"

text \<open>
  \<^verbatim>\<open>jsonUtils.parseJSON\<close> (src/utils/json.ts) catches what \<^verbatim>\<open>JSON.parse\<close> throws and
  returns the message as \<^verbatim>\<open>error\<close>; its callers only test \<^verbatim>\<open>parseResult.error\<close>. \<open>None\<close>
  is that case, \<open>Some data\<close> the parsed value.
\<close>

definition parseJSON :: "platform \<Rightarrow> jsstring \<Rightarrow> jsvalue option" where
  "parseJSON P str = JSON_parse P str"

text \<open>
  \<^verbatim>\<open>value && typeof value === 'string' && value.trim() && value !== lit\<close>: the manual
  literal, when there is one.
\<close>

fun manualLiteral :: "jsvalue \<Rightarrow> jsstring \<Rightarrow> jsstring option" where
  "manualLiteral (JString s) lit = (if s \<noteq> [] \<and> trim s \<noteq> [] \<and> s \<noteq> lit then Some s else None)"
| "manualLiteral _ lit = None"

fun isArray :: "jsvalue \<Rightarrow> bool" where
  "isArray (JArray xs) = True"
| "isArray _ = False"

text \<open>
  \<open>forEachField\<close> is the \<^verbatim>\<open>fieldList.forEach\<close> of \<open>buildObject\<close>, \<open>processField\<close> its
  callback: \<open>None\<close> is a \<^verbatim>\<open>return\<close> before the assignment \<^verbatim>\<open>jsonObject[field.key] = ...\<close>.
  \<open>mapChildren\<close> is the \<^verbatim>\<open>field.children.map\<close> of the array case and \<open>convertChild\<close> its
  callback. The built-ins of \<open>platform\<close> do not throw, so the \<^verbatim>\<open>catch\<close> of the source is
  not reached.
\<close>

fun buildObject :: "platform \<Rightarrow> field list \<Rightarrow> errors \<Rightarrow> jsobject \<times> errors"
  and forEachField :: "platform \<Rightarrow> field list \<Rightarrow> jsobject \<Rightarrow> errors \<Rightarrow> jsobject \<times> errors"
  and processField :: "platform \<Rightarrow> field \<Rightarrow> errors \<Rightarrow> jsvalue option \<times> errors"
  and mapChildren :: "platform \<Rightarrow> field list \<Rightarrow> errors \<Rightarrow> jsvalue list \<times> errors"
  and convertChild :: "platform \<Rightarrow> field \<Rightarrow> errors \<Rightarrow> jsvalue \<times> errors" where
  "buildObject P fieldList errs = forEachField P fieldList emptyObject errs"
| "forEachField P [] jsonObject errs = (jsonObject, errs)"
| "forEachField P (f # fs) jsonObject errs =
     (case processField P f errs of
        (None, errs') \<Rightarrow> forEachField P fs jsonObject errs'
      | (Some processedValue, errs') \<Rightarrow>
          forEachField P fs (objSet jsonObject (key f) processedValue) errs')"
| "processField P (Field i k v t e c col d p) errs =
     (if trim k = [] then (None, errs)
      else (case validateKeyValue k of
              Some err \<Rightarrow> (None, errSet errs i err)
            | None \<Rightarrow>
     (case t of
        T_number \<Rightarrow>
          (let processedValue = (if v = JString [] then Finite 0 else Number P v)
           in if isNaN processedValue then (None, errSet errs i InvalidNumber)
              else (Some (JNumber processedValue), errs))
      | T_boolean \<Rightarrow> (Some (JBoolean (v = JString (js ''true'') \<or> v = JBoolean True)), errs)
      | T_null \<Rightarrow> (Some JNull, errs)
      | T_object \<Rightarrow>
          (case c of
             Some (ch # cs) \<Rightarrow>
               (case buildObject P (ch # cs) errs of
                  (obj, errs') \<Rightarrow> (Some (JObject obj), errs'))
           | _ \<Rightarrow>
               (case manualLiteral v (js ''{}'') of
                  Some s \<Rightarrow>
                    (case parseJSON P s of
                       None \<Rightarrow> (None, errSet errs i InvalidJSONObject)
                     | Some data \<Rightarrow> (Some data, errs))
                | None \<Rightarrow> (Some (JObject emptyObject), errs)))
      | T_array \<Rightarrow>
          (case c of
             Some (ch # cs) \<Rightarrow>
               (case mapChildren P (ch # cs) errs of
                  (vs, errs') \<Rightarrow> (Some (JArray vs), errs'))
           | _ \<Rightarrow>
               (case manualLiteral v (js ''[]'') of
                  Some s \<Rightarrow>
                    (case parseJSON P s of
                       None \<Rightarrow> (None, errSet errs i InvalidJSONArray)
                     | Some data \<Rightarrow>
                         (if \<not> isArray data then (None, errSet errs i InvalidJSONArray)
                          else (Some data, errs)))
                | None \<Rightarrow> (Some (JArray []), errs)))
      | T_string \<Rightarrow> (Some (JString (String P v)), errs))))"
| "mapChildren P [] errs = ([], errs)"
| "mapChildren P (child # cs) errs =
     (case convertChild P child errs of
        (x, errs') \<Rightarrow> (case mapChildren P cs errs' of (xs, errs'') \<Rightarrow> (x # xs, errs'')))"
| "convertChild P (Field i k v t e c col d p) errs =
     (case t of
        T_number \<Rightarrow> (JNumber (if v = JString [] then Finite 0 else Number P v), errs)
      | T_boolean \<Rightarrow> (JBoolean (v = JString (js ''true'') \<or> v = JBoolean True), errs)
      | T_null \<Rightarrow> (JNull, errs)
      | T_object \<Rightarrow>
          (case c of
             Some (ch # cs) \<Rightarrow>
               (case buildObject P (ch # cs) errs of (obj, errs') \<Rightarrow> (JObject obj, errs'))
           | _ \<Rightarrow>
               (case manualLiteral v (js ''{}'') of
                  Some s \<Rightarrow>
                    (case parseJSON P s of None \<Rightarrow> (JObject emptyObject, errs) | Some data \<Rightarrow> (data, errs))
                | None \<Rightarrow> (JObject emptyObject, errs)))
      | T_array \<Rightarrow>
          (case c of
             Some (ch # cs) \<Rightarrow> (JArray (map fvalue (ch # cs)), errs)
           | _ \<Rightarrow>
               (case manualLiteral v (js ''[]'') of
                  Some s \<Rightarrow>
                    (case parseJSON P s of None \<Rightarrow> (JArray [], errs) | Some data \<Rightarrow> (data, errs))
                | None \<Rightarrow> (JArray [], errs)))
      | T_string \<Rightarrow> (JString (String P v), errs))"

text \<open>
  \<open>checkDuplicates\<close>: the two \<^verbatim>\<open>forEach\<close> loops over \<open>fieldsWithKeys\<close> are
  \<open>duplicateKeysOf\<close> (with its set \<open>seenKeys\<close>) and \<open>markDuplicates\<close>, the last loop over
  the children is \<open>checkChildren\<close>.
\<close>

definition duplicateKeysOf :: "field list \<Rightarrow> jsstring set" where
  "duplicateKeysOf fieldsWithKeys =
     fst (fold (\<lambda>f (duplicateKeys, seenKeys).
                  if key f \<in> seenKeys then (insert (key f) duplicateKeys, seenKeys)
                  else (duplicateKeys, insert (key f) seenKeys))
               fieldsWithKeys ({}, {}))"

definition markDuplicates :: "field list \<Rightarrow> jsstring set \<Rightarrow> errors \<Rightarrow> errors" where
  "markDuplicates fieldsWithKeys duplicateKeys errs =
     fold (\<lambda>f errs'. if key f \<in> duplicateKeys then errSet errs' (fid f) DuplicateKey else errs')
          fieldsWithKeys errs"

fun checkDuplicates :: "field list \<Rightarrow> errors \<Rightarrow> errors"
  and checkChildren :: "field list \<Rightarrow> errors \<Rightarrow> errors" where
  "checkDuplicates fieldList errs =
     (let fieldsWithKeys = filter (\<lambda>f. trim (key f) \<noteq> []) fieldList
      in checkChildren fieldList
           (if hasDuplicateKeys fieldsWithKeys
            then markDuplicates fieldsWithKeys (duplicateKeysOf fieldsWithKeys) errs
            else errs))"
| "checkChildren [] errs = errs"
| "checkChildren (Field i k v t e c col d p # fs) errs =
     (case c of
        Some (ch # cs) \<Rightarrow> checkChildren fs (checkDuplicates (ch # cs) errs)
      | _ \<Rightarrow> checkChildren fs errs)"

text \<open>\<open>generateJSON\<close> returns \<^verbatim>\<open>{ errors: newErrors, json: jsonObject }\<close>.\<close>

definition generateJSON :: "platform \<Rightarrow> field list \<Rightarrow> errors \<times> jsobject" where
  "generateJSON P fs =
     (case buildObject P fs Map.empty of
        (jsonObject, errs) \<Rightarrow> (checkDuplicates fs errs, jsonObject))"

section \<open>Notions of the specification\<close>

text \<open>
  The ids of a list of fields and of everything below them, in document order;
  \<open>descendantIds f\<close> are the ids strictly below \<open>f\<close>.
\<close>

fun descendantIds :: "field \<Rightarrow> jsstring list"
  and idsOf :: "field list \<Rightarrow> jsstring list" where
  "descendantIds (Field i k v t e c col d p) = (case c of None \<Rightarrow> [] | Some cs \<Rightarrow> idsOf cs)"
| "idsOf [] = []"
| "idsOf (f # fs) = fid f # descendantIds f @ idsOf fs"

text \<open>Fields for the examples: a string leaf, and a field of a given type with children.\<close>

definition leaf :: "string \<Rightarrow> string \<Rightarrow> ftype \<Rightarrow> string \<Rightarrow> field" where
  "leaf i k t v = Field (js i) (js k) (JString (js v)) t None (Some []) (Some False) (Some 0) None"

definition node :: "string \<Rightarrow> string \<Rightarrow> ftype \<Rightarrow> field list \<Rightarrow> field" where
  "node i k t cs = Field (js i) (js k) (JString []) t None (Some cs) (Some False) (Some 0) None"

text \<open>
  Every array-typed field of the list, at any depth, has children whose keys are their
  zero-based positions, written as decimal strings.
\<close>

fun arrayKeysIndexed :: "field \<Rightarrow> bool"
  and allArrayKeysIndexed :: "field list \<Rightarrow> bool" where
  "arrayKeysIndexed (Field i k v t e c col d p) =
     (case c of
        None \<Rightarrow> True
      | Some cs \<Rightarrow> (t = T_array \<longrightarrow> map key cs = map toString [0..<length cs])
                   \<and> allArrayKeysIndexed cs)"
| "allArrayKeysIndexed [] = True"
| "allArrayKeysIndexed (f # fs) = (arrayKeysIndexed f \<and> allArrayKeysIndexed fs)"

text \<open>
  The frame of an update aimed at id \<open>i\<close>: the two lists have the same length, and position
  by position a field with another id keeps its id, key, value, type, flags, depth and
  parent id, and its children are related in the same way. Below a field with id \<open>i\<close>
  nothing changes: its children are as before, or the empty list when there were none.
\<close>

fun frameField :: "jsstring \<Rightarrow> field \<Rightarrow> field \<Rightarrow> bool"
  and frameList :: "jsstring \<Rightarrow> field list \<Rightarrow> field list \<Rightarrow> bool" where
  "frameField i (Field i' k v t e c col d p) g =
     (if i' = i then (children g = c \<or> (c = None \<and> children g = Some []))
      else fid g = i' \<and> key g = k \<and> fvalue g = v \<and> ftype g = t \<and> isEditing g = e
           \<and> isCollapsed g = col \<and> depth g = d \<and> parentId g = p
           \<and> (case c of
                 None \<Rightarrow> children g = None
               | Some cs \<Rightarrow> (case children g of
                               None \<Rightarrow> False
                             | Some cs' \<Rightarrow> frameList i cs cs')))"
| "frameList i [] gs = (gs = [])"
| "frameList i (f # fs) gs =
     (case gs of [] \<Rightarrow> False | g # gs' \<Rightarrow> frameField i f g \<and> frameList i fs gs')"

text \<open>
  A field shares its key with a sibling when the key is not blank and occurs at least
  twice in its sibling list. \<open>duplicateIds\<close> are the ids of such fields over every sibling
  list of the tree.
\<close>

definition duplicatedIn :: "field list \<Rightarrow> field \<Rightarrow> bool" where
  "duplicatedIn siblings f =
     (trim (key f) \<noteq> [] \<and> 2 \<le> length (filter (\<lambda>g. key g = key f) siblings))"

fun duplicateIds :: "field list \<Rightarrow> jsstring list"
  and childDuplicateIds :: "field list \<Rightarrow> jsstring list" where
  "duplicateIds siblings =
     map fid (filter (duplicatedIn siblings) siblings) @ childDuplicateIds siblings"
| "childDuplicateIds [] = []"
| "childDuplicateIds (Field i k v t e c col d p # fs) =
     (case c of Some cs \<Rightarrow> duplicateIds cs | None \<Rightarrow> []) @ childDuplicateIds fs"

text \<open>
  The fields of a tree in document order, each with its subtree; \<open>below f\<close> are the
  descendants of \<open>f\<close>.
\<close>

fun below :: "field \<Rightarrow> field list"
  and fieldsOf :: "field list \<Rightarrow> field list" where
  "below (Field i k v t e c col d p) = (case c of None \<Rightarrow> [] | Some cs \<Rightarrow> fieldsOf cs)"
| "fieldsOf [] = []"
| "fieldsOf (f # fs) = f # below f @ fieldsOf fs"


text \<open>
  A platform for the examples. It agrees with the built-ins on the values the examples
  pass: \<^verbatim>\<open>Number\<close> on a non-empty string of decimal digits and on \<^verbatim>\<open>'abc'\<close>, \<^verbatim>\<open>String\<close> on a
  string. No example reaches \<^verbatim>\<open>JSON.parse\<close>.
\<close>

definition digitsValue :: "jsstring \<Rightarrow> nat" where
  "digitsValue s = foldl (\<lambda>n c. 10 * n + (unat c - 48)) 0 s"

definition examplePlatform :: platform where
  "examplePlatform =
     \<lparr>Number = (\<lambda>x. case x of
                      JString s \<Rightarrow> (if s \<noteq> [] \<and> list_all isDigit s
                                    then Finite (of_nat (digitsValue s)) else NaN)
                    | JNumber n \<Rightarrow> n
                    | _ \<Rightarrow> NaN),
      String = (\<lambda>x. case x of JString s \<Rightarrow> s | _ \<Rightarrow> []),
      JSON_parse = (\<lambda>s. None)\<rparr>"

section \<open>Verified properties\<close>

subsection \<open>Identifier validator\<close>

lemma isIdPart_not_ws: "isIdPart c \<Longrightarrow> \<not> isWhiteSpace c"
  unfolding isIdPart_def isDigit_def isWhiteSpace_def
  by (auto simp: word_le_nat_alt)

lemma isIdPart_not_space: "isIdPart c \<Longrightarrow> c \<noteq> 0x20"
  unfolding isIdPart_def isDigit_def by auto

lemma isIdPart_underscore: "isIdPart 0x5F"
  by (simp add: isIdPart_def)

lemma not_isDigit_underscore: "\<not> isDigit 0x5F"
  by (simp add: isDigit_def)

lemma isIdStart_iff: "isIdStart c \<longleftrightarrow> isIdPart c \<and> \<not> isDigit c"
  unfolding isIdPart_def isIdStart_def isDigit_def
  by (auto simp: word_le_nat_alt)

lemma dropWhile_none: "\<forall>c\<in>set s. \<not> q c \<Longrightarrow> dropWhile q s = s"
  by (cases s) auto

lemma trim_no_ws: "\<forall>c\<in>set s. \<not> isWhiteSpace c \<Longrightarrow> trim s = s"
  by (simp add: trim_def dropWhile_none)

lemma sanitized_all: "list_all isIdPart (sanitizeKey k)"
  by (cases k) (auto simp: sanitizeKey_def list_all_iff isIdPart_underscore)

lemma sanitized_matches: "k \<noteq> [] \<Longrightarrow> matchesIdentifier (sanitizeKey k)"
  by (cases k)
    (auto simp: sanitizeKey_def list_all_iff isIdPart_underscore isIdStart_iff
      not_isDigit_underscore)

text \<open>
  C7, as amended. For every non-empty input string, also one made entirely of invalid
  characters, \<open>sanitizeKey\<close> returns a string that \<open>validateKeyValue\<close> accepts.
\<close>

theorem sanitizeKey_valid: "k \<noteq> [] \<Longrightarrow> validateKeyValue (sanitizeKey k) = None"
proof -
  assume ne: "k \<noteq> []"
  have all: "\<forall>c\<in>set (sanitizeKey k). isIdPart c"
    using sanitized_all [of k] by (simp add: list_all_iff)
  have ne': "sanitizeKey k \<noteq> []"
    using ne by (cases k) (auto simp: sanitizeKey_def)
  have "trim (sanitizeKey k) = sanitizeKey k"
    using all isIdPart_not_ws by (intro trim_no_ws) auto
  moreover have "0x20 \<notin> set (sanitizeKey k)"
    using all isIdPart_not_space by blast
  ultimately show ?thesis
    using ne' sanitized_matches [OF ne] by (simp add: validateKeyValue_def)
qed

theorem sanitizeKey_valid_witness:
  "js ''9-a b'' \<noteq> [] \<and> sanitizeKey (js ''9-a b'') = js ''_9_a_b''
   \<and> validateKeyValue (sanitizeKey (js ''9-a b'')) = None"
  using sanitizeKey_valid [of "js ''9-a b''"]
  by (simp add: js_def sanitizeKey_def isIdPart_def isDigit_def)

text \<open>
  C7 as stated fails at the empty string: \<open>sanitizeKey\<close> returns it as it is, and the
  validator rejects the empty key.
\<close>

theorem sanitizeKey_empty_counterexample:
  "validateKeyValue (sanitizeKey []) = Some KeyCannotBeEmpty"
  by (simp add: sanitizeKey_def validateKeyValue_def trim_def)

subsection \<open>Drag-reorder engine\<close>

lemma isDescendant_iff:
  "isDescendant f h = (h \<in> set (descendantIds f))"
  "isDescendantLoop cs h = (h \<in> set (idsOf cs))"
  by (induction f h and cs h rule: isDescendant_isDescendantLoop.induct)
    (auto split: option.splits)

lemma findField_fid: "findField fs i = Some f \<Longrightarrow> fid f = i"
  by (induction fs i rule: findField.induct) (auto split: if_splits option.splits)

lemma findField_None_iff: "(findField fs i = None) = (i \<notin> set (idsOf fs))"
  by (induction fs i rule: findField.induct) (auto split: option.splits)

lemma ids_of_fields:
  "descendantIds f = map fid (below f)"
  "idsOf fs = map fid (fieldsOf fs)"
  by (induction f and fs rule: below_fieldsOf.induct) (auto split: option.splits)

lemma find_append:
  "find q (xs @ ys) = (case find q xs of None \<Rightarrow> find q ys | Some x \<Rightarrow> Some x)"
  by (induction xs) auto

lemma findField_find: "findField fs i = find (\<lambda>g. fid g = i) (fieldsOf fs)"
  by (induction fs i rule: findField.induct) (auto simp: find_append split: option.splits)

lemma find_distinct:
  "distinct (map fid xs) \<Longrightarrow> f \<in> set xs \<Longrightarrow> find (\<lambda>g. fid g = fid f) xs = Some f"
  by (induction xs) (auto simp: image_iff)

text \<open>
  C9. \<open>canDrop\<close> is false exactly when the two ids are equal, or the field of the tree
  with id \<open>dragId\<close> (the first one in document order, which is the only one when ids
  are unique) has a field with id \<open>hoverId\<close> among its descendants; in every other case,
  also when no field of the tree has the id \<open>dragId\<close>, it is true.
\<close>

theorem canDrop_exact:
  "canDrop dragId hoverId fs =
     (\<not> (dragId = hoverId
         \<or> (\<exists>f. find (\<lambda>g. fid g = dragId) (fieldsOf fs) = Some f
                \<and> hoverId \<in> fid ` set (below f))))
   \<and> (distinct (map fid (fieldsOf fs)) \<longrightarrow>
        canDrop dragId hoverId fs =
          (\<not> (dragId = hoverId
              \<or> (\<exists>f\<in>set (fieldsOf fs). fid f = dragId \<and> hoverId \<in> fid ` set (below f)))))
   \<and> (dragId \<notin> fid ` set (fieldsOf fs) \<longrightarrow> canDrop dragId hoverId fs = (dragId \<noteq> hoverId))"
proof (intro conjI impI)
  have desc: "isDescendant f hoverId = (hoverId \<in> fid ` set (below f))" for f
    by (simp add: isDescendant_iff ids_of_fields)
  show first: "canDrop dragId hoverId fs =
     (\<not> (dragId = hoverId
         \<or> (\<exists>f. find (\<lambda>g. fid g = dragId) (fieldsOf fs) = Some f
                \<and> hoverId \<in> fid ` set (below f))))"
    by (auto simp: canDrop_def desc findField_find split: option.splits)
  show "canDrop dragId hoverId fs =
          (\<not> (dragId = hoverId
              \<or> (\<exists>f\<in>set (fieldsOf fs). fid f = dragId \<and> hoverId \<in> fid ` set (below f))))"
    if dist: "distinct (map fid (fieldsOf fs))"
  proof -
    have "(find (\<lambda>g. fid g = dragId) (fieldsOf fs) = Some f)
            = (f \<in> set (fieldsOf fs) \<and> fid f = dragId)" for f
      using find_distinct [OF dist, of f] by (auto simp: find_Some_iff)
    then show ?thesis unfolding first by blast
  qed
  show "canDrop dragId hoverId fs = (dragId \<noteq> hoverId)"
    if "dragId \<notin> fid ` set (fieldsOf fs)"
  proof -
    have "find (\<lambda>g. fid g = dragId) (fieldsOf fs) = None"
      using that by (auto simp: find_None_iff)
    then show ?thesis unfolding first by simp
  qed
qed

theorem canDrop_exact_witness:
  "distinct (map fid (fieldsOf
      [node ''a'' ''ka'' T_object [leaf ''b'' ''kb'' T_string ''x''], leaf ''c'' ''kc'' T_string ''y'']))
   \<and> node ''a'' ''ka'' T_object [leaf ''b'' ''kb'' T_string ''x''] \<in> set (fieldsOf
      [node ''a'' ''ka'' T_object [leaf ''b'' ''kb'' T_string ''x''], leaf ''c'' ''kc'' T_string ''y''])
   \<and> js ''b'' \<in> fid ` set (below (node ''a'' ''ka'' T_object [leaf ''b'' ''kb'' T_string ''x'']))
   \<and> canDrop (js ''a'') (js ''b'')
        [node ''a'' ''ka'' T_object [leaf ''b'' ''kb'' T_string ''x''], leaf ''c'' ''kc'' T_string ''y'']
      = False
   \<and> canDrop (js ''c'') (js ''b'')
        [node ''a'' ''ka'' T_object [leaf ''b'' ''kb'' T_string ''x''], leaf ''c'' ''kc'' T_string ''y'']
      = True
   \<and> js ''z'' \<notin> fid ` set (fieldsOf
      [node ''a'' ''ka'' T_object [leaf ''b'' ''kb'' T_string ''x''], leaf ''c'' ''kc'' T_string ''y''])
   \<and> canDrop (js ''z'') (js ''b'')
        [node ''a'' ''ka'' T_object [leaf ''b'' ''kb'' T_string ''x''], leaf ''c'' ''kc'' T_string ''y'']
      = True"
  using canDrop_exact [of "js ''a''" "js ''b''"
      "[node ''a'' ''ka'' T_object [leaf ''b'' ''kb'' T_string ''x''], leaf ''c'' ''kc'' T_string ''y'']"]
    canDrop_exact [of "js ''z''" "js ''b''"
      "[node ''a'' ''ka'' T_object [leaf ''b'' ''kb'' T_string ''x''], leaf ''c'' ''kc'' T_string ''y'']"]
  by (simp add: canDrop_def leaf_def node_def js_def)

lemma findFieldWithPath_fst: "fst (findFieldWithPath fs i path) = findField fs i"
  by (induction fs i path rule: findFieldWithPath.induct)
    (auto split: option.splits prod.splits)

lemma splice_not_Nil: "splice xs n x \<noteq> []"
  by (simp add: splice_def Let_def)

lemma length_insertAsChild: "length (insertAsChild fs x n pId) = length fs"
  by (induction fs x n pId rule: insertAsChild.induct) auto

lemma length_updateChildren: "length (updateChildren pId index x fs) = length fs"
  by (induction pId index x fs rule: updateChildren.induct) auto

lemma length_updateInFields: "length (updateInFields i u fs) = length fs"
  by (induction i u fs rule: updateInFields.induct) auto

lemma dragDrop_removeField_Nil: "dragDrop_removeField fs i = [] \<Longrightarrow> \<forall>f\<in>set fs. fid f = i"
  by (induction fs i rule: dragDrop_removeField.induct) (auto split: if_splits)

lemma same_id_distinct: "\<forall>f\<in>set fs. fid f = i \<Longrightarrow> distinct (map fid fs) \<Longrightarrow> fs \<noteq> [] \<Longrightarrow> \<exists>a. fs = [a]"
  by (cases fs; cases "tl fs") auto

lemma findField_in_ids: "findField fs i = Some f \<Longrightarrow> i \<in> set (idsOf fs)"
  using findField_None_iff [of fs i] by auto

lemma moveField_not_Nil:
  assumes ne: "fs \<noteq> []" and can: "canDrop dragId hoverId fs" and dist: "distinct (map fid fs)"
  shows "moveField fs dragId hoverId hoverParentId \<noteq> []"
proof (cases "findField fs dragId")
  case None
  then show ?thesis using ne by (simp add: moveField_def findFieldWithPath_fst)
next
  case (Some dragField)
  note drag = this
  show ?thesis
  proof (cases "findField fs hoverId")
    case None
    then show ?thesis using ne drag by (simp add: moveField_def findFieldWithPath_fst)
  next
    case (Some hoverField)
    have rest: "dragDrop_removeField fs dragId \<noteq> []"
    proof
      assume "dragDrop_removeField fs dragId = []"
      then have "\<forall>f\<in>set fs. fid f = dragId" by (rule dragDrop_removeField_Nil)
      then obtain a where a: "fs = [a]" using same_id_distinct dist ne by blast
      then have ida: "fid a = dragId" using \<open>\<forall>f\<in>set fs. fid f = dragId\<close> by simp
      have neq: "dragId \<noteq> hoverId" using can by (auto simp: canDrop_def)
      have "findField fs dragId = Some a" using a ida by (cases a) simp
      then have nd: "\<not> isDescendant a hoverId"
        using can neq by (auto simp: canDrop_def split: if_splits)
      have "hoverId \<in> set (idsOf fs)" using Some by (rule findField_in_ids)
      then have "hoverId \<in> set (descendantIds a)" using a ida neq by auto
      then show False using nd by (simp add: isDescendant_iff)
    qed
    show ?thesis
    proof (cases "truthy hoverParentId")
      case True
      have "length (moveField fs dragId hoverId hoverParentId) = length (dragDrop_removeField fs dragId)"
        using drag Some True
        by (simp add: moveField_def findFieldWithPath_fst insertField_def Let_def length_insertAsChild)
      then show ?thesis using rest by auto
    next
      case False
      then show ?thesis using drag Some
        by (simp add: moveField_def findFieldWithPath_fst insertField_def Let_def splice_not_Nil)
    qed
  qed
qed

text \<open>
  C2, as amended. From a non-empty root list, \<open>addField\<close>, \<open>removeField\<close>, \<open>updateField\<close>
  and \<open>toggleCollapse\<close> return a non-empty root list, and when the removal leaves nothing
  \<open>removeField\<close> returns one blank string field. \<open>moveField\<close> returns a non-empty root list
  when \<open>canDrop\<close> allows the move (the test \<open>handleDrop\<close> makes before it calls
  \<open>moveField\<close>) and the ids of the root fields are pairwise distinct.
\<close>

theorem operations_keep_root_nonempty:
  assumes "fs \<noteq> []"
  shows "addField fs newId pId index \<noteq> []
       \<and> removeField fs i newId \<noteq> []
       \<and> (removeFromFields i fs = [] \<longrightarrow>
            removeField fs i newId
              = [Field newId [] (JString []) T_string None (Some []) (Some False) (Some 0) None])
       \<and> updateField fs i u \<noteq> []
       \<and> toggleCollapse fs i \<noteq> []
       \<and> (canDrop dragId hoverId fs \<and> distinct (map fid fs)
            \<longrightarrow> moveField fs dragId hoverId hoverParentId \<noteq> [])"
proof (intro conjI)
  show "addField fs newId pId index \<noteq> []"
  proof (cases "truthy pId")
    case True
    then have "length (addField fs newId pId index) = length fs"
      by (simp add: addField_def Let_def length_updateChildren)
    then show ?thesis using assms by auto
  next
    case False
    then show ?thesis
      by (simp add: addField_def Let_def splice_not_Nil split: option.splits)
  qed
  show "removeField fs i newId \<noteq> []"
    by (simp add: removeField_def Let_def)
  show "removeFromFields i fs = [] \<longrightarrow>
            removeField fs i newId
              = [Field newId [] (JString []) T_string None (Some []) (Some False) (Some 0) None]"
    by (simp add: removeField_def Let_def blankField_def)
  have len: "length (updateField fs i u') = length fs" for u'
    by (simp add: updateField_def length_updateInFields)
  show "updateField fs i u \<noteq> []"
    using len [of u] assms by auto
  have "length (toggleCollapse fs i) = length fs"
    unfolding toggleCollapse_def Let_def by (rule len)
  then show "toggleCollapse fs i \<noteq> []"
    using assms by auto
  show "canDrop dragId hoverId fs \<and> distinct (map fid fs)
            \<longrightarrow> moveField fs dragId hoverId hoverParentId \<noteq> []"
    using moveField_not_Nil assms by blast
qed

text \<open>
  C1, as amended. When the dragged id equals the drop target's id, or the drop target is a
  descendant of the dragged field, \<open>canDrop\<close> is false and \<open>handleDrop\<close> leaves the tree as
  it is without calling \<open>moveField\<close>. \<open>moveField\<close> itself returns the tree unchanged when
  the dragged id or the drop target's id does not resolve.
\<close>

theorem handleDrop_rejects:
  "(dragId = fid field
      \<or> (\<exists>dragField. findField allFields dragId = Some dragField
            \<and> fid field \<in> set (descendantIds dragField))
     \<longrightarrow> \<not> canDrop dragId (fid field) allFields
         \<and> handleDrop allFields field dragOver dragId = allFields)
   \<and> (findField allFields dragId = None \<or> findField allFields hoverId = None
     \<longrightarrow> moveField allFields dragId hoverId hoverParentId = allFields)"
  by (auto simp: handleDrop_def canDrop_def isDescendant_iff moveField_def findFieldWithPath_fst
      split: option.splits)


theorem operations_keep_root_nonempty_witness:
  "[leaf ''a'' ''ka'' T_string ''x''] \<noteq> []
   \<and> removeFromFields (js ''a'') [leaf ''a'' ''ka'' T_string ''x''] = []
   \<and> removeField [leaf ''a'' ''ka'' T_string ''x''] (js ''a'') (js ''n'')
       = [Field (js ''n'') [] (JString []) T_string None (Some []) (Some False) (Some 0) None]
   \<and> canDrop (js ''c'') (js ''b'')
        [node ''a'' ''ka'' T_object [leaf ''b'' ''kb'' T_string ''x''], leaf ''c'' ''kc'' T_string ''y'']
   \<and> distinct (map fid
        [node ''a'' ''ka'' T_object [leaf ''b'' ''kb'' T_string ''x''], leaf ''c'' ''kc'' T_string ''y''])
   \<and> moveField
        [node ''a'' ''ka'' T_object [leaf ''b'' ''kb'' T_string ''x''], leaf ''c'' ''kc'' T_string ''y'']
        (js ''c'') (js ''b'') (Some (js ''a'')) \<noteq> []"
  using operations_keep_root_nonempty
      [of "[leaf ''a'' ''ka'' T_string ''x'']" "js ''n''" None None "js ''a''" noUpdates "js ''c''" "js ''b''" None]
    operations_keep_root_nonempty
      [of "[node ''a'' ''ka'' T_object [leaf ''b'' ''kb'' T_string ''x''], leaf ''c'' ''kc'' T_string ''y'']"
          "js ''n''" None None "js ''a''" noUpdates "js ''c''" "js ''b''" "Some (js ''a'')"]
  by (simp add: leaf_def node_def js_def canDrop_def)

text \<open>
  C2 as stated fails for \<open>moveField\<close> called on its own: dragging the only root field
  onto its child, with the dragged field as the new parent, returns the empty list.
\<close>

theorem moveField_empties_root_counterexample:
  "moveField [node ''a'' ''ka'' T_object [leaf ''b'' ''kb'' T_string ''x'']]
     (js ''a'') (js ''b'') (Some (js ''a'')) = []"
  by (simp add: moveField_def leaf_def node_def js_def findInsertIndex_def insertField_def)

theorem handleDrop_rejects_witness:
  "(\<exists>dragField.
      findField [node ''a'' ''ka'' T_object [leaf ''b'' ''kb'' T_string ''x''], leaf ''c'' ''kc'' T_string ''y'']
        (js ''a'') = Some dragField
      \<and> fid (leaf ''b'' ''kb'' T_string ''x'') \<in> set (descendantIds dragField))
   \<and> handleDrop
        [node ''a'' ''ka'' T_object [leaf ''b'' ''kb'' T_string ''x''], leaf ''c'' ''kc'' T_string ''y'']
        (leaf ''b'' ''kb'' T_string ''x'') (Some Before) (js ''a'')
      = [node ''a'' ''ka'' T_object [leaf ''b'' ''kb'' T_string ''x''], leaf ''c'' ''kc'' T_string ''y'']
   \<and> findField
        [node ''a'' ''ka'' T_object [leaf ''b'' ''kb'' T_string ''x''], leaf ''c'' ''kc'' T_string ''y'']
        (js ''z'') = None
   \<and> moveField
        [node ''a'' ''ka'' T_object [leaf ''b'' ''kb'' T_string ''x''], leaf ''c'' ''kc'' T_string ''y'']
        (js ''a'') (js ''z'') None
      = [node ''a'' ''ka'' T_object [leaf ''b'' ''kb'' T_string ''x''], leaf ''c'' ''kc'' T_string ''y'']"
  using handleDrop_rejects
      [of "js ''a''" "leaf ''b'' ''kb'' T_string ''x''"
          "[node ''a'' ''ka'' T_object [leaf ''b'' ''kb'' T_string ''x''], leaf ''c'' ''kc'' T_string ''y'']"
          "Some Before" "js ''z''" None]
  by (simp add: leaf_def node_def js_def)

text \<open>
  C1 as stated fails: \<open>moveField\<close> makes neither test. Dropping a field onto itself moves
  it to the end of the root list, and dropping a field onto its own child under itself
  loses the field and its subtree.
\<close>

theorem moveField_unguarded_counterexample:
  "moveField [leaf ''a'' ''ka'' T_string ''x'', leaf ''b'' ''kb'' T_string ''y'']
     (js ''a'') (js ''a'') None
     = [leaf ''b'' ''kb'' T_string ''y'', leaf ''a'' ''ka'' T_string ''x'']
   \<and> [leaf ''b'' ''kb'' T_string ''y'', leaf ''a'' ''ka'' T_string ''x'']
     \<noteq> [leaf ''a'' ''ka'' T_string ''x'', leaf ''b'' ''kb'' T_string ''y'']
   \<and> isDescendant (node ''a'' ''ka'' T_object [leaf ''b'' ''kb'' T_string ''x'']) (js ''b'')
   \<and> moveField
        [node ''a'' ''ka'' T_object [leaf ''b'' ''kb'' T_string ''x''], leaf ''c'' ''kc'' T_string ''y'']
        (js ''a'') (js ''b'') (Some (js ''a''))
     = [leaf ''c'' ''kc'' T_string ''y'']"
  by (simp add: moveField_def leaf_def node_def js_def findInsertIndex_def insertField_def
      splice_def)

subsection \<open>Array renumbering\<close>

lemma allArrayKeysIndexed_iff: "allArrayKeysIndexed fs = (\<forall>f\<in>set fs. arrayKeysIndexed f)"
  by (induction fs) auto

lemma arrayKeysIndexed_withKey: "arrayKeysIndexed (withKey f k') = arrayKeysIndexed f"
  by (cases f) simp

lemma key_withKey: "key (withKey f k') = k'"
  by (cases f) simp

lemma allArrayKeysIndexed_reindex: "allArrayKeysIndexed cs \<Longrightarrow> allArrayKeysIndexed (reindex cs)"
  by (auto simp: allArrayKeysIndexed_iff reindex_def arrayKeysIndexed_withKey dest: set_zip_leftD)

lemma length_reindex: "length (reindex cs) = length cs"
  by (simp add: reindex_def)

lemma keys_reindex: "map key (reindex cs) = map toString [0..<length cs]"
proof -
  have "map key (reindex cs) = map (toString \<circ> snd) (zip cs [0..<length cs])"
    by (simp add: reindex_def key_withKey split_def comp_def)
  also have "\<dots> = map toString (map snd (zip cs [0..<length cs]))"
    by (simp only: map_map)
  also have "map snd (zip cs [0..<length cs]) = [0..<length cs]"
    by (rule map_snd_zip) simp
  finally show ?thesis .
qed

lemma removeFromFields_indexed: "allArrayKeysIndexed (removeFromFields i fs)"
  by (induction i fs rule: removeFromFields.induct)
    (auto simp: Let_def keys_reindex length_reindex allArrayKeysIndexed_reindex split: option.splits)

text \<open>
  C8. After \<open>removeField\<close>, every array-typed field of the resulting tree, at any depth and
  whether or not the removal touched its children, has children whose keys are
  \<open>0\<close>, \<open>1\<close>, ... in child order.
\<close>

theorem removeField_renumbers_arrays: "allArrayKeysIndexed (removeField fs i newId)"
  by (simp add: removeField_def Let_def removeFromFields_indexed blankField_def)

theorem removeField_renumbers_arrays_witness:
  "removeField
     [node ''a'' ''tags'' T_array [leaf ''b'' ''0'' T_string ''x'', leaf ''c'' ''1'' T_string ''y''],
      node ''d'' ''other'' T_array [leaf ''e'' '''' T_string ''u'', leaf ''f'' ''k'' T_string ''v'']]
     (js ''b'') (js ''n'')
   = [node ''a'' ''tags'' T_array [leaf ''c'' ''0'' T_string ''y''],
      node ''d'' ''other'' T_array [leaf ''e'' ''0'' T_string ''u'', leaf ''f'' ''1'' T_string ''v'']]
   \<and> allArrayKeysIndexed (removeField
     [node ''a'' ''tags'' T_array [leaf ''b'' ''0'' T_string ''x'', leaf ''c'' ''1'' T_string ''y''],
      node ''d'' ''other'' T_array [leaf ''e'' '''' T_string ''u'', leaf ''f'' ''k'' T_string ''v'']]
     (js ''b'') (js ''n''))"
  using removeField_renumbers_arrays
    [of "[node ''a'' ''tags'' T_array [leaf ''b'' ''0'' T_string ''x'', leaf ''c'' ''1'' T_string ''y''],
      node ''d'' ''other'' T_array [leaf ''e'' '''' T_string ''u'', leaf ''f'' ''k'' T_string ''v'']]"
     "js ''b''" "js ''n''"]
  by (simp add: removeField_def reindex_def leaf_def node_def js_def toString.simps)

subsection \<open>Updates\<close>

lemma children_mergeUpdates: "u_children u = None \<Longrightarrow> children (mergeUpdates f u) = children f"
  by (cases f) simp

lemma children_withChildren: "children (withChildren f cs) = cs"
  by (cases f) simp

lemma children_applyUpdates:
  "u_children u = None \<Longrightarrow>
     children (applyUpdates f u) = children f
     \<or> (children f = None \<and> children (applyUpdates f u) = Some [])"
  by (auto simp: applyUpdates_def Let_def children_mergeUpdates children_withChildren)

lemma updateInFields_frame: "u_children u = None \<Longrightarrow> frameList i fs (updateInFields i u fs)"
proof (induction i u fs rule: updateInFields.induct)
  case (1 i u)
  then show ?case by simp
next
  case (2 i u i' k v t e c col d p fs)
  then show ?case
    using children_applyUpdates [of u "Field i' k v t e c col d p"]
    by (auto split: option.splits)
qed

lemma fid_mergeUpdates: "u_id u = None \<Longrightarrow> fid (mergeUpdates f u) = fid f"
  by (cases f) simp

lemma fid_withChildren: "fid (withChildren f cs) = fid f"
  by (cases f) simp

lemma descendantIds_children: "descendantIds f = (case children f of None \<Rightarrow> [] | Some cs \<Rightarrow> idsOf cs)"
  by (cases f) simp

lemma ids_applyUpdates:
  "u_children u = None \<Longrightarrow> u_id u = None \<Longrightarrow>
     fid (applyUpdates f u) = fid f \<and> descendantIds (applyUpdates f u) = descendantIds f"
  by (auto simp: applyUpdates_def Let_def fid_mergeUpdates fid_withChildren descendantIds_children
      children_mergeUpdates children_withChildren split: option.splits)

lemma updateInFields_ids:
  "u_children u = None \<Longrightarrow> u_id u = None \<Longrightarrow> idsOf (updateInFields i u fs) = idsOf fs"
proof (induction i u fs rule: updateInFields.induct)
  case (1 i u)
  then show ?case by simp
next
  case (2 i u i' k v t e c col d p fs)
  then show ?case
    using ids_applyUpdates [of u "Field i' k v t e c col d p"]
    by (auto split: option.splits)
qed

text \<open>
  C10, as amended. For every tree, id and partial update that does not set \<open>children\<close>,
  \<open>updateField\<close> leaves every field whose id differs from the target as it was (same id,
  key, value, type, flags, depth, parent id), keeps the length and the order of every
  sibling list, and leaves everything below a target as it was; when the update does not
  set \<open>id\<close> either, the ids of the tree, in document order, are the same.
\<close>

theorem updateField_frame:
  "u_children u = None \<Longrightarrow>
     frameList i fs (updateField fs i u)
     \<and> length (updateField fs i u) = length fs
     \<and> (u_id u = None \<longrightarrow> idsOf (updateField fs i u) = idsOf fs)"
  by (simp add: updateField_def updateInFields_frame updateInFields_ids length_updateInFields)


theorem updateField_frame_witness:
  "u_children (noUpdates\<lparr>u_key := Some (js ''new'')\<rparr>) = None
   \<and> updateField
        [node ''a'' ''ka'' T_object [leaf ''b'' ''kb'' T_string ''x'', leaf ''c'' ''kc'' T_string ''y''],
         leaf ''d'' ''kd'' T_string ''z'']
        (js ''b'') (noUpdates\<lparr>u_key := Some (js ''new'')\<rparr>)
      = [node ''a'' ''ka'' T_object [leaf ''b'' ''new'' T_string ''x'', leaf ''c'' ''kc'' T_string ''y''],
         leaf ''d'' ''kd'' T_string ''z'']
   \<and> frameList (js ''b'')
        [node ''a'' ''ka'' T_object [leaf ''b'' ''kb'' T_string ''x'', leaf ''c'' ''kc'' T_string ''y''],
         leaf ''d'' ''kd'' T_string ''z'']
        (updateField
          [node ''a'' ''ka'' T_object [leaf ''b'' ''kb'' T_string ''x'', leaf ''c'' ''kc'' T_string ''y''],
           leaf ''d'' ''kd'' T_string ''z'']
          (js ''b'') (noUpdates\<lparr>u_key := Some (js ''new'')\<rparr>))"
  using updateField_frame
    [of "noUpdates\<lparr>u_key := Some (js ''new'')\<rparr>" "js ''b''"
        "[node ''a'' ''ka'' T_object [leaf ''b'' ''kb'' T_string ''x'', leaf ''c'' ''kc'' T_string ''y''],
         leaf ''d'' ''kd'' T_string ''z'']"]
  by (simp add: updateField_def applyUpdates_def noUpdates_def leaf_def node_def js_def)

text \<open>
  C10 as stated fails for an update that sets \<open>children\<close>: the fields below the target,
  whose ids differ from the target's, are replaced with the target's new children.
\<close>

theorem updateField_children_counterexample:
  "updateField [node ''a'' ''ka'' T_object [leaf ''b'' ''kb'' T_string ''x'']]
     (js ''a'') (noUpdates\<lparr>u_children := Some (Some [])\<rparr>)
     = [node ''a'' ''ka'' T_object []]
   \<and> findField [node ''a'' ''ka'' T_object [leaf ''b'' ''kb'' T_string ''x'']] (js ''b'')
     = Some (leaf ''b'' ''kb'' T_string ''x'')
   \<and> findField (updateField [node ''a'' ''ka'' T_object [leaf ''b'' ''kb'' T_string ''x'']]
        (js ''a'') (noUpdates\<lparr>u_children := Some (Some [])\<rparr>)) (js ''b'') = None
   \<and> \<not> frameList (js ''a'') [node ''a'' ''ka'' T_object [leaf ''b'' ''kb'' T_string ''x'']]
        (updateField [node ''a'' ''ka'' T_object [leaf ''b'' ''kb'' T_string ''x'']]
          (js ''a'') (noUpdates\<lparr>u_children := Some (Some [])\<rparr>))"
  by (simp add: updateField_def applyUpdates_def noUpdates_def leaf_def node_def js_def)

lemma findField_None_update: "findField fs i = None \<Longrightarrow> updateInFields i u fs = fs"
  by (induction fs i rule: findField.induct) (auto split: option.splits if_splits)

lemma findField_updateInFields:
  "findField fs i = Some f \<Longrightarrow> u_id u = None \<Longrightarrow>
     findField (updateInFields i u fs) i = Some (applyUpdates f u)"
proof (induction fs i arbitrary: f rule: findField.induct)
  case (1 i)
  then show ?case by simp
next
  case (2 i' k v t e c col d p fs i)
  show ?case
  proof (cases "i' = i")
    case True
    have "fid (applyUpdates (Field i' k v t e c col d p) u) = i"
      using True "2.prems"(2) by (simp add: applyUpdates_def Let_def fid_mergeUpdates fid_withChildren)
    then have "findField (applyUpdates (Field i' k v t e c col d p) u # xs) i
                 = Some (applyUpdates (Field i' k v t e c col d p) u)" for xs
      by (cases "applyUpdates (Field i' k v t e c col d p) u") auto
    then show ?thesis using True "2.prems"(1) by auto
  next
    case False
    then show ?thesis
      using 2 by (auto split: option.splits simp: findField_None_update)
  qed
qed

lemma applyUpdates_handleTypeChange:
  "ftype (applyUpdates f (handleTypeChange t)) = t
   \<and> fvalue (applyUpdates f (handleTypeChange t))
       = JString (case t of T_string \<Rightarrow> [] | T_number \<Rightarrow> js ''0'' | T_boolean \<Rightarrow> js ''false''
                    | T_null \<Rightarrow> [] | T_object \<Rightarrow> js ''{}'' | T_array \<Rightarrow> js ''[]'')"
  by (cases f; cases t)
    (simp_all add: applyUpdates_def handleTypeChange_def noUpdates_def Let_def)

text \<open>
  C6, as amended. The update that \<open>handleTypeChange\<close> hands to \<open>updateField\<close> sets the type
  and resets the value to the default of the new type: the strings \<open>''\<close> for string, \<open>'0'\<close>
  for number, \<open>'false'\<close> for boolean, \<open>''\<close> for null, \<open>'{}'\<close> for object and \<open>'[]'\<close> for
  array. \<open>updateField\<close> with an update that sets the type alone changes the type and keeps
  the value.
\<close>

theorem handleTypeChange_resets_value:
  "findField fs i = Some f \<Longrightarrow>
     (\<exists>f'. findField (updateField fs i (handleTypeChange t)) i = Some f'
        \<and> ftype f' = t
        \<and> fvalue f' = JString (case t of T_string \<Rightarrow> [] | T_number \<Rightarrow> js ''0''
                              | T_boolean \<Rightarrow> js ''false'' | T_null \<Rightarrow> []
                              | T_object \<Rightarrow> js ''{}'' | T_array \<Rightarrow> js ''[]''))
     \<and> (\<exists>f'. findField (updateField fs i (noUpdates\<lparr>u_type := Some t\<rparr>)) i = Some f'
        \<and> ftype f' = t \<and> fvalue f' = fvalue f)"
proof
  assume found: "findField fs i = Some f"
  have "u_id (handleTypeChange t) = None"
    by (simp add: handleTypeChange_def noUpdates_def Let_def)
  then have "findField (updateField fs i (handleTypeChange t)) i
               = Some (applyUpdates f (handleTypeChange t))"
    using found by (simp add: updateField_def findField_updateInFields)
  then show "\<exists>f'. findField (updateField fs i (handleTypeChange t)) i = Some f'
        \<and> ftype f' = t
        \<and> fvalue f' = JString (case t of T_string \<Rightarrow> [] | T_number \<Rightarrow> js ''0''
                              | T_boolean \<Rightarrow> js ''false'' | T_null \<Rightarrow> []
                              | T_object \<Rightarrow> js ''{}'' | T_array \<Rightarrow> js ''[]'')"
    using applyUpdates_handleTypeChange [of f t] by simp
  have "findField (updateField fs i (noUpdates\<lparr>u_type := Some t\<rparr>)) i
               = Some (applyUpdates f (noUpdates\<lparr>u_type := Some t\<rparr>))"
    using found by (simp add: updateField_def findField_updateInFields noUpdates_def)
  moreover have "ftype (applyUpdates f (noUpdates\<lparr>u_type := Some t\<rparr>)) = t
      \<and> fvalue (applyUpdates f (noUpdates\<lparr>u_type := Some t\<rparr>)) = fvalue f"
    by (cases f) (simp add: applyUpdates_def noUpdates_def Let_def)
  ultimately show "\<exists>f'. findField (updateField fs i (noUpdates\<lparr>u_type := Some t\<rparr>)) i = Some f'
        \<and> ftype f' = t \<and> fvalue f' = fvalue f"
    by simp
qed

theorem handleTypeChange_resets_value_witness:
  "findField [leaf ''a'' ''ka'' T_string ''abc''] (js ''a'') = Some (leaf ''a'' ''ka'' T_string ''abc'')
   \<and> updateField [leaf ''a'' ''ka'' T_string ''abc''] (js ''a'') (handleTypeChange T_number)
       = [leaf ''a'' ''ka'' T_number ''0'']
   \<and> (\<exists>f'. findField (updateField [leaf ''a'' ''ka'' T_string ''abc''] (js ''a'')
                (handleTypeChange T_number)) (js ''a'') = Some f'
        \<and> ftype f' = T_number \<and> fvalue f' = JString (js ''0''))"
  using handleTypeChange_resets_value [of "[leaf ''a'' ''ka'' T_string ''abc'']" "js ''a''"
      "leaf ''a'' ''ka'' T_string ''abc''" T_number]
  by (simp add: updateField_def applyUpdates_def handleTypeChange_def noUpdates_def leaf_def js_def)

text \<open>
  C6 as stated fails: \<open>updateField\<close> only merges the update it is given, so a change of
  type alone leaves the old value in place.
\<close>

theorem updateField_type_only_counterexample:
  "updateField [leaf ''a'' ''ka'' T_string ''abc''] (js ''a'') (noUpdates\<lparr>u_type := Some T_number\<rparr>)
     = [leaf ''a'' ''ka'' T_number ''abc'']"
  by (simp add: updateField_def applyUpdates_def noUpdates_def leaf_def js_def)

subsection \<open>JSON synthesizer\<close>

lemma hasDuplicateKeys_iff: "hasDuplicateKeys fl = (\<not> distinct (map key fl))"
  unfolding hasDuplicateKeys_def using card_distinct distinct_card by fastforce

lemma validateKeyValue_not_dup: "validateKeyValue k \<noteq> Some DuplicateKey"
  by (simp add: validateKeyValue_def)

lemma validateKeyValue_trim: "validateKeyValue k = None \<Longrightarrow> trim k \<noteq> []"
  by (auto simp: validateKeyValue_def split: if_splits)

lemma errSet_apply:
  "errSet errs i e j = (if j = i \<and> i \<noteq> js ''__proto__'' then Some e else errs j)"
  by (simp add: errSet_def)

lemma synthesis_adds_no_duplicate_marks:
  "errs i \<noteq> Some DuplicateKey \<Longrightarrow> snd (buildObject P fl errs) i \<noteq> Some DuplicateKey"
  "errs i \<noteq> Some DuplicateKey \<Longrightarrow> snd (forEachField P fl obj errs) i \<noteq> Some DuplicateKey"
  "errs i \<noteq> Some DuplicateKey \<Longrightarrow> snd (processField P f errs) i \<noteq> Some DuplicateKey"
  "errs i \<noteq> Some DuplicateKey \<Longrightarrow> snd (mapChildren P fl errs) i \<noteq> Some DuplicateKey"
  "errs i \<noteq> Some DuplicateKey \<Longrightarrow> snd (convertChild P f errs) i \<noteq> Some DuplicateKey"
proof (induction P fl errs and P fl obj errs and P f errs and P fl errs and P f errs
    rule: buildObject_forEachField_processField_mapChildren_convertChild.induct)
  case (1 P fieldList errs)
  then show ?case by simp
next
  case (2 P jsonObject errs)
  then show ?case by simp
next
  case (3 P f fs jsonObject errs)
  then show ?case
    by (cases "processField P f errs"; cases "fst (processField P f errs)") auto
next
  case (4 P i' k v t e c col d p errs)
  show ?case
  proof (cases "trim k = []")
    case True
    then show ?thesis using "4.prems" by simp
  next
    case False
    note ne = this "4.prems"
    show ?thesis
    proof (cases "validateKeyValue k")
      case (Some err)
      then have "err \<noteq> DuplicateKey" using validateKeyValue_not_dup [of k] by auto
      then show ?thesis using ne Some by (simp add: errSet_apply)
    next
      case None
      show ?thesis
      proof (cases t)
        case T_object
        then show ?thesis
          using ne None "4.IH"(1)
          by (auto simp: errSet_apply split: option.splits list.splits prod.splits)
      next
        case T_array
        then show ?thesis
          using ne None "4.IH"(2)
          by (auto simp: errSet_apply split: option.splits list.splits prod.splits)
      qed (use ne None in \<open>auto simp: Let_def errSet_apply\<close>)
    qed
  qed
next
  case (5 P errs)
  then show ?case by simp
next
  case (6 P child cs errs)
  then show ?case
    by (cases "convertChild P child errs"; cases "mapChildren P cs (snd (convertChild P child errs))")
      auto
next
  case (7 P i' k v t e c col d p errs)
  show ?case
  proof (cases t)
    case T_object
    then show ?thesis
      using 7 by (auto split: option.splits list.splits prod.splits)
  qed (use 7 in \<open>auto split: option.splits list.splits prod.splits\<close>)
qed

lemma markDuplicates_apply:
  "markDuplicates fw dk errs i
     = (if i \<noteq> js ''__proto__'' \<and> (\<exists>f\<in>set fw. fid f = i \<and> key f \<in> dk)
        then Some DuplicateKey else errs i)"
  unfolding markDuplicates_def
  by (induction fw arbitrary: errs) (auto simp: errSet_apply)

lemma collect_duplicates:
  "fold (\<lambda>f (duplicateKeys, seenKeys).
            if key f \<in> seenKeys then (insert (key f) duplicateKeys, seenKeys)
            else (duplicateKeys, insert (key f) seenKeys)) fw (D, S)
     = (D \<union> {k. (k \<in> S \<and> k \<in> set (map key fw)) \<or> 2 \<le> count_list (map key fw) k},
        S \<union> set (map key fw))"
proof (induction fw arbitrary: D S)
  case Nil
  then show ?case by auto
next
  case (Cons f fw)
  have pos: "0 < count_list (map key fw) k \<longleftrightarrow> k \<in> key ` set fw" for k
    using count_list_0_iff [of "map key fw" k] by auto
  show ?case
  proof (cases "key f \<in> S")
    case True
    then show ?thesis
      using pos by (simp add: Cons.IH) (auto simp: Suc_le_eq)
  next
    case False
    then show ?thesis
      using pos by (simp add: Cons.IH) (auto simp: Suc_le_eq)
  qed
qed

lemma duplicateKeysOf_eq: "duplicateKeysOf fw = {k. 2 \<le> count_list (map key fw) k}"
  by (simp add: duplicateKeysOf_def collect_duplicates)

lemma distinct_count_le: "distinct ks \<Longrightarrow> count_list ks k \<le> Suc 0"
  by (induction ks) (auto simp: count_list_0_iff)

lemma count_with_keys:
  "trim k \<noteq> [] \<Longrightarrow>
     count_list (map key (filter (\<lambda>f. trim (key f) \<noteq> []) fl)) k
       = length (filter (\<lambda>g. key g = k) fl)"
  by (induction fl) auto

lemma group_marks:
  "(if hasDuplicateKeys (filter (\<lambda>f. trim (key f) \<noteq> []) fl)
      then markDuplicates (filter (\<lambda>f. trim (key f) \<noteq> []) fl)
             (duplicateKeysOf (filter (\<lambda>f. trim (key f) \<noteq> []) fl)) errs
      else errs) i
   = (if i \<noteq> js ''__proto__'' \<and> i \<in> set (map fid (filter (duplicatedIn fl) fl))
      then Some DuplicateKey else errs i)"
proof -
  let ?fw = "filter (\<lambda>f. trim (key f) \<noteq> []) fl"
  have one: "(f \<in> set ?fw \<and> key f \<in> duplicateKeysOf ?fw) = (f \<in> set fl \<and> duplicatedIn fl f)" for f
    by (cases "trim (key f) = []")
      (simp_all add: duplicateKeysOf_eq count_with_keys duplicatedIn_def)
  have "(\<exists>f\<in>set ?fw. fid f = i \<and> key f \<in> duplicateKeysOf ?fw)
          = (\<exists>f. fid f = i \<and> (f \<in> set ?fw \<and> key f \<in> duplicateKeysOf ?fw))"
    by blast
  also have "\<dots> = (\<exists>f. fid f = i \<and> (f \<in> set fl \<and> duplicatedIn fl f))"
    by (simp only: one)
  also have "\<dots> = (i \<in> set (map fid (filter (duplicatedIn fl) fl)))"
    by (simp add: image_iff) blast
  finally have dup: "(\<exists>f\<in>set ?fw. fid f = i \<and> key f \<in> duplicateKeysOf ?fw)
               = (i \<in> set (map fid (filter (duplicatedIn fl) fl)))" .
  show ?thesis
  proof (cases "hasDuplicateKeys ?fw")
    case True
    then show ?thesis using dup by (simp add: markDuplicates_apply)
  next
    case False
    then have "distinct (map key ?fw)" by (simp add: hasDuplicateKeys_iff)
    then have le: "count_list (map key ?fw) k \<le> Suc 0" for k by (rule distinct_count_le)
    have "\<not> 2 \<le> count_list (map key ?fw) k" for k
      using le [of k] by linarith
    then have "duplicateKeysOf ?fw = {}"
      by (simp add: duplicateKeysOf_eq)
    then have "i \<notin> set (map fid (filter (duplicatedIn fl) fl))"
      using dup by simp
    then show ?thesis using False by simp
  qed
qed

lemma checkDuplicates_value:
  "checkDuplicates fl errs i
     = (if i \<noteq> js ''__proto__'' \<and> i \<in> set (duplicateIds fl) then Some DuplicateKey else errs i)"
  "checkChildren fl errs i
     = (if i \<noteq> js ''__proto__'' \<and> i \<in> set (childDuplicateIds fl) then Some DuplicateKey
        else errs i)"
proof (induction fl errs and fl errs rule: checkDuplicates_checkChildren.induct)
  case (1 fieldList errs)
  show ?case
    using group_marks [of fieldList errs i]
    by (simp add: Let_def 1 del: duplicateIds.simps) (auto simp: duplicateIds.simps [of fieldList])
next
  case (2 errs)
  then show ?case by simp
next
  case (3 i' k v t e c col d p fs errs)
  then show ?case
    by (auto split: option.splits list.splits simp del: duplicateIds.simps
        simp: duplicateIds.simps [of "[]"] duplicatedIn_def)
qed

lemmas synth_eval = generateJSON_def leaf_def node_def js_def examplePlatform_def
  validateKeyValue_def trim_def isWhiteSpace_def isIdStart_def isIdPart_def isDigit_def
  hasDuplicateKeys_iff duplicateKeysOf_def markDuplicates_def digitsValue_def isNaN_def Let_def
  emptyObject_def errSet_def

lemma propSet_lookup:
  "map_of (propSet ps k v) k' = (if k' = k then Some v else map_of ps k')"
  by (induction ps k v rule: propSet.induct) auto

lemma objSet_other: "k' \<noteq> k \<Longrightarrow> map_of (props (objSet ob k v)) k' = map_of (props ob) k'"
  by (cases ob) (auto simp: propSet_lookup split: jsvalue.splits)

lemma objSet_same:
  "k \<noteq> js ''__proto__'' \<Longrightarrow> map_of (props (objSet ob k v)) k = Some v"
  by (cases ob) (simp add: propSet_lookup)

lemma forEachField_append:
  "forEachField P (xs @ ys) ob errs
     = (case forEachField P xs ob errs of (ob', errs') \<Rightarrow> forEachField P ys ob' errs')"
  by (induction xs arbitrary: ob errs) (auto split: prod.splits option.splits)

lemma forEachField_other_keys:
  "\<forall>g\<in>set fl. key g \<noteq> k \<Longrightarrow>
     map_of (props (fst (forEachField P fl ob errs))) k = map_of (props ob) k"
proof (induction fl arbitrary: ob errs)
  case Nil
  then show ?case by simp
next
  case (Cons g fl)
  obtain r errs' where step: "processField P g errs = (r, errs')"
    by (cases "processField P g errs")
  have ne: "k \<noteq> key g" using Cons.prems by auto
  show ?case
  proof (cases r)
    case None
    then show ?thesis using step Cons by simp
  next
    case (Some x)
    then show ?thesis
      using step Cons.IH [of "objSet ob (key g) x" errs'] Cons.prems objSet_other [OF ne]
      by simp
  qed
qed

lemma processField_leaf:
  "validateKeyValue (key f) = None \<Longrightarrow> ftype f \<in> {T_string, T_boolean, T_null} \<Longrightarrow>
     processField P f errs =
       (Some (case ftype f of
                T_boolean \<Rightarrow> JBoolean (fvalue f = JString (js ''true'') \<or> fvalue f = JBoolean True)
              | T_null \<Rightarrow> JNull
              | _ \<Rightarrow> JString (String P (fvalue f))), errs)"
  by (cases f) (auto dest: validateKeyValue_trim)

lemma generateJSON_parts:
  "fst (generateJSON P fs) = checkDuplicates fs (snd (buildObject P fs Map.empty))"
  "snd (generateJSON P fs) = fst (buildObject P fs Map.empty)"
  by (cases "buildObject P fs Map.empty";
      simp add: generateJSON_def del: checkDuplicates.simps buildObject.simps)+

text \<open>
  C3, as amended. Synthesis records \<open>DuplicateKey\<close> for exactly the ids of the fields that
  share a key, not blank after trimming, with another field of their sibling list, at any
  depth (the id \<^verbatim>\<open>__proto__\<close> apart, which the error map cannot hold). The output is built
  before the duplicates are looked for and does not omit them: a key that is a valid
  identifier other than \<^verbatim>\<open>__proto__\<close> holds the value of the last root field that carries
  it, when that field is of type string, boolean or null, whether or not earlier fields
  carry the same key.
\<close>

theorem duplicate_keys_reported:
  "(fst (generateJSON P fs) i = Some DuplicateKey)
     = (i \<in> set (duplicateIds fs) \<and> i \<noteq> js ''__proto__'')
   \<and> (validateKeyValue (key f) = None \<and> key f \<noteq> js ''__proto__''
        \<and> ftype f \<in> {T_string, T_boolean, T_null} \<and> (\<forall>g\<in>set post. key g \<noteq> key f)
      \<longrightarrow> map_of (props (snd (generateJSON P (pre @ f # post)))) (key f)
            = Some (case ftype f of
                      T_boolean \<Rightarrow> JBoolean (fvalue f = JString (js ''true'')
                                              \<or> fvalue f = JBoolean True)
                    | T_null \<Rightarrow> JNull
                    | _ \<Rightarrow> JString (String P (fvalue f))))"
proof (intro conjI impI)
  have "snd (buildObject P fs Map.empty) i \<noteq> Some DuplicateKey"
    using synthesis_adds_no_duplicate_marks(1) [of Map.empty i P fs] by simp
  then show "(fst (generateJSON P fs) i = Some DuplicateKey)
     = (i \<in> set (duplicateIds fs) \<and> i \<noteq> js ''__proto__'')"
    by (auto simp: generateJSON_parts(1) checkDuplicates_value(1)
        simp del: checkDuplicates.simps buildObject.simps duplicateIds.simps)
next
  let ?v = "case ftype f of
              T_boolean \<Rightarrow> JBoolean (fvalue f = JString (js ''true'') \<or> fvalue f = JBoolean True)
            | T_null \<Rightarrow> JNull
            | _ \<Rightarrow> JString (String P (fvalue f))"
  assume a: "validateKeyValue (key f) = None \<and> key f \<noteq> js ''__proto__''
        \<and> ftype f \<in> {T_string, T_boolean, T_null} \<and> (\<forall>g\<in>set post. key g \<noteq> key f)"
  obtain ob1 e1 where pre: "forEachField P pre emptyObject Map.empty = (ob1, e1)"
    by (cases "forEachField P pre emptyObject Map.empty")
  have step: "processField P f e1 = (Some ?v, e1)"
    using a processField_leaf [of f P e1] by simp
  have "snd (generateJSON P (pre @ f # post))
          = fst (forEachField P post (objSet ob1 (key f) ?v) e1)"
    using pre step by (simp add: generateJSON_parts(2) forEachField_append)
  moreover have "map_of (props (fst (forEachField P post (objSet ob1 (key f) ?v) e1))) (key f)
          = map_of (props (objSet ob1 (key f) ?v)) (key f)"
    using a by (intro forEachField_other_keys) simp
  ultimately show "map_of (props (snd (generateJSON P (pre @ f # post)))) (key f) = Some ?v"
    using a by (simp add: objSet_same)
qed

theorem duplicate_keys_reported_witness:
  "generateJSON examplePlatform
     ([leaf ''a'' ''dup'' T_string ''x'', leaf ''b'' ''other'' T_string ''z'']
       @ leaf ''c'' ''dup'' T_string ''y'' # [])
     = ([js ''a'' \<mapsto> DuplicateKey, js ''c'' \<mapsto> DuplicateKey],
        Obj [(js ''dup'', JString (js ''y'')), (js ''other'', JString (js ''z''))] ObjectPrototype)
   \<and> duplicateIds
     ([leaf ''a'' ''dup'' T_string ''x'', leaf ''b'' ''other'' T_string ''z'']
       @ leaf ''c'' ''dup'' T_string ''y'' # []) = [js ''a'', js ''c'']
   \<and> validateKeyValue (key (leaf ''c'' ''dup'' T_string ''y'')) = None
   \<and> map_of (props (snd (generateJSON examplePlatform
        ([leaf ''a'' ''dup'' T_string ''x'', leaf ''b'' ''other'' T_string ''z'']
          @ leaf ''c'' ''dup'' T_string ''y'' # [])))) (js ''dup'')
      = Some (JString (js ''y''))"
  using duplicate_keys_reported [of examplePlatform
     "[leaf ''a'' ''dup'' T_string ''x'', leaf ''b'' ''other'' T_string ''z'']
       @ leaf ''c'' ''dup'' T_string ''y'' # []" "js ''a''"
     "leaf ''c'' ''dup'' T_string ''y''" "[]"
     "[leaf ''a'' ''dup'' T_string ''x'', leaf ''b'' ''other'' T_string ''z'']"]
  by (simp add: synth_eval duplicatedIn_def)

text \<open>
  C3 as stated fails in its second half: with two root fields of key \<open>dup\<close> both ids get
  \<open>DuplicateKey\<close>, and the output still has the key \<open>dup\<close>, with the value of the second.
  Two root fields whose common key is one space, non-empty but blank, get no mark at all,
  and neither does a field whose id is \<^verbatim>\<open>__proto__\<close>.
\<close>

theorem duplicates_not_omitted_counterexample:
  "generateJSON examplePlatform
     [leaf ''a'' ''dup'' T_string ''x'', leaf ''b'' ''dup'' T_string ''y'']
     = ([js ''a'' \<mapsto> DuplicateKey, js ''b'' \<mapsto> DuplicateKey],
        Obj [(js ''dup'', JString (js ''y''))] ObjectPrototype)
   \<and> generateJSON examplePlatform
     [leaf ''a'' '' '' T_string ''x'', leaf ''b'' '' '' T_string ''y'']
     = (Map.empty, Obj [] ObjectPrototype)
   \<and> generateJSON examplePlatform
     [leaf ''__proto__'' ''dup'' T_string ''x'', leaf ''b'' ''dup'' T_string ''y'']
     = ([js ''b'' \<mapsto> DuplicateKey], Obj [(js ''dup'', JString (js ''y''))] ObjectPrototype)"
  by (simp add: synth_eval)

text \<open>
  C4 does not hold of the code. The children of an array inside an array are emitted with
  their stored values: a number-typed grandchild \<open>'5'\<close> and a boolean-typed grandchild
  \<open>'true'\<close> come out as the strings \<open>'5'\<close> and \<open>'true'\<close>, while the same two fields one
  level up come out as \<open>5\<close> and \<open>true\<close>.
\<close>

theorem nested_array_raw_values:
  "generateJSON examplePlatform
     [node ''a'' ''arr'' T_array
        [node ''b'' ''0'' T_array
           [leaf ''c'' ''0'' T_number ''5'', leaf ''d'' ''1'' T_boolean ''true'']]]
     = (Map.empty,
        Obj [(js ''arr'', JArray [JArray [JString (js ''5''), JString (js ''true'')]])]
          ObjectPrototype)
   \<and> generateJSON examplePlatform
     [node ''a'' ''arr'' T_array
        [leaf ''c'' ''0'' T_number ''5'', leaf ''d'' ''1'' T_boolean ''true'']]
     = (Map.empty, Obj [(js ''arr'', JArray [JNumber (Finite 5), JBoolean True])] ObjectPrototype)"
  by (simp add: synth_eval)









end
